theory Spec2Isabelle
  imports Complex_Main "HOL-Library.AList" "HOL-Library.Log_Nat"
begin

section \<open>Python values used by \<open>main.py\<close>\<close>

text \<open>
  The exceptions that the modelled statements can raise. \<open>process_csv_data\<close> catches
  \<open>ValueError\<close> and \<open>KeyError\<close> per row and wraps everything else that reaches its outer
  handler into a \<open>RuntimeError\<close>; \<open>HistogramApp.process_data\<close> catches \<open>ValueError\<close> only.
\<close>

datatype exn = ValueError | KeyError | AttributeError | TypeError | ZeroDivisionError

text \<open>The \<open>RuntimeError\<close> raised by the outer handler of \<open>process_csv_data\<close>, with its cause.\<close>

datatype fatal = RuntimeError exn

text \<open>
  A cell of a row produced by \<open>csv.DictReader\<close>: the text of the field, or \<open>None\<close>
  (the reader's \<open>restval\<close>) when the line has fewer fields than the header. A column that
  the header does not have is absent from the row altogether.
\<close>

datatype cell = Text string | NoneCell

type_synonym row = "string \<rightharpoonup> cell"

definition bind :: "exn + 'a \<Rightarrow> ('a \<Rightarrow> exn + 'b) \<Rightarrow> exn + 'b" where
  "bind m f = (case m of Inl e \<Rightarrow> Inl e | Inr x \<Rightarrow> f x)"

subsection \<open>Strings\<close>

text \<open>
  Strings are sequences of code points below 256. \<open>is_space\<close> is \<open>str.isspace\<close> on that
  range: TAB to CR, FS to US, the space, NEL and the no-break space.
\<close>

definition is_space :: "char \<Rightarrow> bool" where
  "is_space c = (let n = (of_char c :: nat) in
     (9 \<le> n \<and> n \<le> 13) \<or> (28 \<le> n \<and> n \<le> 32) \<or> n = 133 \<or> n = 160)"

definition strip :: "string \<Rightarrow> string" where
  "strip s = rev (dropWhile is_space (rev (dropWhile is_space s)))"

text \<open>\<open>str.lower\<close> on code points below 256: A to Z, and the Latin-1 capitals except the
  multiplication sign.\<close>

definition lower_char :: "char \<Rightarrow> char" where
  "lower_char c = (let n = (of_char c :: nat) in
     if (65 \<le> n \<and> n \<le> 90) \<or> (192 \<le> n \<and> n \<le> 222 \<and> n \<noteq> 215) then char_of (n + 32) else c)"

definition lower :: "string \<Rightarrow> string" where
  "lower s = map lower_char s"

text \<open>\<open>s.split(':')[0]\<close>: the text before the first colon, all of \<open>s\<close> when it has none.\<close>

definition split_first :: "string \<Rightarrow> string" where
  "split_first s = takeWhile (\<lambda>c. c \<noteq> CHR '':'') s"

text \<open>\<open>sub in s\<close> for strings.\<close>

fun contains :: "string \<Rightarrow> string \<Rightarrow> bool" where
  "contains sub [] = (sub = [])"
| "contains sub (c # cs) = (take (length sub) (c # cs) = sub \<or> contains sub cs)"

subsection \<open>\<open>int(s)\<close> and \<open>str(n)\<close>\<close>

definition is_digit :: "char \<Rightarrow> bool" where
  "is_digit c = (let n = (of_char c :: nat) in 48 \<le> n \<and> n \<le> 57)"

definition digit_val :: "char \<Rightarrow> nat" where
  "digit_val c = of_char c - 48"

text \<open>
  The digits of a decimal literal as \<open>int\<close> accepts them: one or more digits, single
  underscores allowed between two digits. \<open>int_digits acc s\<close> reads \<open>s\<close> with the value
  \<open>acc\<close> of the digits read so far.
\<close>

fun int_digits :: "nat \<Rightarrow> string \<Rightarrow> nat option" where
  "int_digits acc [] = Some acc"
| "int_digits acc [c] = (if is_digit c then Some (10 * acc + digit_val c) else None)"
| "int_digits acc (c # d # cs) =
     (if is_digit c then int_digits (10 * acc + digit_val c) (d # cs)
      else if c = CHR ''_'' \<and> is_digit d then int_digits acc (d # cs)
      else None)"

definition int_unsigned :: "string \<Rightarrow> nat option" where
  "int_unsigned s = (case s of [] \<Rightarrow> None | c # cs \<Rightarrow> if is_digit c then int_digits 0 s else None)"

text \<open>
  \<open>int(s)\<close> for a string: surrounding whitespace is dropped, one sign is accepted, the
  rest must be a decimal literal; anything else is a \<open>ValueError\<close>. (The interpreter's
  limit on the number of digits, 4300 by default, also gives a \<open>ValueError\<close> and is left out.)
\<close>

definition py_int :: "string \<Rightarrow> exn + int" where
  "py_int s =
     (case strip s of
        [] \<Rightarrow> Inl ValueError
      | c # cs \<Rightarrow>
          if c = CHR ''-'' then
            (case int_unsigned cs of None \<Rightarrow> Inl ValueError | Some n \<Rightarrow> Inr (- int n))
          else if c = CHR ''+'' then
            (case int_unsigned cs of None \<Rightarrow> Inl ValueError | Some n \<Rightarrow> Inr (int n))
          else
            (case int_unsigned (c # cs) of None \<Rightarrow> Inl ValueError | Some n \<Rightarrow> Inr (int n)))"

fun nat_str :: "nat \<Rightarrow> string" where
  "nat_str n = (if n < 10 then [char_of (48 + n)] else nat_str (n div 10) @ [char_of (48 + n mod 10)])"

declare nat_str.simps [simp del]

text \<open>\<open>str(n)\<close> for an integer, as the f-string formats it.\<close>

definition py_str :: "int \<Rightarrow> string" where
  "py_str i = (if i < 0 then CHR ''-'' # nat_str (nat (- i)) else nat_str (nat i))"

section \<open>Rows and vehicle events\<close>

text \<open>\<open>row.get(key, default)\<close> followed by a string method (\<open>strip\<close>, \<open>lower\<close>, \<open>split\<close>):
  the default when the column is absent, an \<open>AttributeError\<close> when the cell is \<open>None\<close>.\<close>

definition get_str :: "row \<Rightarrow> string \<Rightarrow> string \<Rightarrow> exn + string" where
  "get_str r k d =
     (case r k of None \<Rightarrow> Inr d | Some (Text s) \<Rightarrow> Inr s | Some NoneCell \<Rightarrow> Inl AttributeError)"

text \<open>\<open>int(row.get(key, 0))\<close>: the integer default \<open>0\<close> when the column is absent, a
  \<open>TypeError\<close> when the cell is \<open>None\<close>, \<open>int\<close> of the text otherwise.\<close>

definition get_int :: "row \<Rightarrow> string \<Rightarrow> exn + int" where
  "get_int r k =
     (case r k of None \<Rightarrow> Inr 0 | Some (Text s) \<Rightarrow> py_int s | Some NoneCell \<Rightarrow> Inl TypeError)"

record vehicle_event =
  junction_name :: string
  travel_in :: string
  travel_out :: string
  vehicle_speed :: int
  vehicle_type :: string
  is_electric :: bool
  weather_condition :: string
  speed_limit :: int
  hour :: string

text \<open>The nine assignments at the head of the loop body of \<open>process_csv_data\<close>, in
  their order; the first one that raises decides the exception.\<close>

definition parse_row :: "row \<Rightarrow> exn + vehicle_event" where
  "parse_row r =
     bind (get_str r ''JunctionName'' []) (\<lambda>jn.
     bind (get_str r ''travel_Direction_in'' []) (\<lambda>tin.
     bind (get_str r ''travel_Direction_out'' []) (\<lambda>tout.
     bind (get_int r ''VehicleSpeed'') (\<lambda>speed.
     bind (get_str r ''VehicleType'' []) (\<lambda>vt.
     bind (get_str r ''elctricHybrid'' []) (\<lambda>el.
     bind (get_str r ''Weather_Conditions'' []) (\<lambda>w.
     bind (get_int r ''JunctionSpeedLimit'') (\<lambda>lim.
     bind (get_str r ''timeOfDay'' ''00:00'') (\<lambda>t.
     Inr \<lparr>junction_name = strip jn, travel_in = strip tin, travel_out = strip tout,
          vehicle_speed = speed, vehicle_type = strip vt,
          is_electric = (lower (strip el) = ''true''),
          weather_condition = lower w, speed_limit = lim,
          hour = split_first t\<rparr>)))))))))"

section \<open>Floating point\<close>

text \<open>
  \<open>a / b\<close> on integers and \<open>x * 100\<close> are binary64 operations: the exact result rounded
  to the nearest number with a 53-bit significand, ties to the even significand. A double
  is modelled by the rational it denotes. \<open>ilog2 x\<close> is the exponent of the leading bit of
  \<open>x\<close>. The exponent range is not bounded: the quotients and products below come from
  row counts, which stay far inside the range of binary64.
\<close>

definition ilog2 :: "rat \<Rightarrow> int" where
  "ilog2 x = (let (p, q) = quotient_of \<bar>x\<bar>; d = bitlen p - bitlen q
              in if 2 powi d \<le> \<bar>x\<bar> then d else d - 1)"

definition round_half_even :: "rat \<Rightarrow> int" where
  "round_half_even x = (let f = \<lfloor>x\<rfloor>; d = x - of_int f
     in if d < 1 / 2 then f else if 1 / 2 < d then f + 1 else if even f then f else f + 1)"

definition fl :: "rat \<Rightarrow> rat" where
  "fl x = (if x = 0 then 0
           else let e = ilog2 x - 52 in of_int (round_half_even (x / 2 powi e)) * 2 powi e)"

text \<open>\<open>a / b\<close> for two integers: true division, correctly rounded.\<close>

definition truediv :: "int \<Rightarrow> int \<Rightarrow> exn + rat" where
  "truediv a b = (if b = 0 then Inl ZeroDivisionError else Inr (fl (of_int a / of_int b)))"

definition fmul :: "rat \<Rightarrow> rat \<Rightarrow> rat" where
  "fmul x y = fl (x * y)"


text \<open>\<open>round(x)\<close> of a float with no second argument: the nearest integer, ties to even.\<close>

definition py_round :: "rat \<Rightarrow> int" where
  "py_round x = round_half_even x"

section \<open>The aggregation pass of \<open>process_csv_data\<close>\<close>

record totals_dict =
  total_vehicles :: int
  total_trucks :: int
  total_bikes :: int
  total_electric_vehicles :: int
  total_no_turn :: int
  total_speed_violations :: int
  total_rain_hours :: int
  total_elm_road :: int
  total_hanley_road :: int
  total_buses_north :: int
  total_scooters_elm :: int
  total_bicycle :: int

text \<open>
  The four objects the pass mutates. A Python dictionary keeps its keys in insertion
  order, so \<open>hanley_counts_per_hour\<close> is an association list with distinct keys:
  \<open>AList.update\<close> overwrites the value of a key in place and puts a new key at the end.
\<close>

record agg_state =
  totals :: totals_dict
  hanley_counts_per_hour :: "(string \<times> int) list"
  bicycle_hours :: "string set"
  rain_hours :: "string set"

definition init_state :: agg_state where
  "init_state =
     \<lparr>totals = \<lparr>total_vehicles = 0, total_trucks = 0, total_bikes = 0,
                 total_electric_vehicles = 0, total_no_turn = 0, total_speed_violations = 0,
                 total_rain_hours = 0, total_elm_road = 0, total_hanley_road = 0,
                 total_buses_north = 0, total_scooters_elm = 0, total_bicycle = 0\<rparr>,
      hanley_counts_per_hour = [], bicycle_hours = {}, rain_hours = {}\<rparr>"

text \<open>\<open>d.get(k, default)\<close> on such a dictionary.\<close>

definition dict_get :: "('k \<times> 'v) list \<Rightarrow> 'k \<Rightarrow> 'v \<Rightarrow> 'v" where
  "dict_get d k dflt = (case map_of d k of None \<Rightarrow> dflt | Some v \<Rightarrow> v)"

definition elm :: string where
  "elm = ''Elm Avenue/Rabbit Road''"

definition hanley :: string where
  "hanley = ''Hanley Highway/Westway''"

text \<open>\<open>totals[key] += 1\<close>, given the update function of the key.\<close>

definition incr :: "((int \<Rightarrow> int) \<Rightarrow> totals_dict \<Rightarrow> totals_dict) \<Rightarrow> agg_state \<Rightarrow> agg_state" where
  "incr upd s = s\<lparr>totals := upd (\<lambda>n. n + 1) (totals s)\<rparr>"

text \<open>\<open>if c: statement\<close>, the statement being a change of the state.\<close>

definition if_then :: "bool \<Rightarrow> ('s \<Rightarrow> 's) \<Rightarrow> 's \<Rightarrow> 's" where
  "if_then c f s = (if c then f s else s)"

text \<open>The junction branch of the loop body: Elm Avenue, else Hanley, else nothing.\<close>

definition count_junction :: "vehicle_event \<Rightarrow> agg_state \<Rightarrow> agg_state" where
  "count_junction ev s =
     (if junction_name ev = elm then
        (let s = incr total_elm_road_update s;
             s = if_then (travel_out ev = ''N'' \<and> vehicle_type ev = ''Buss'')
                   (incr total_buses_north_update) s;
             s = if_then (vehicle_type ev = ''Scooter'') (incr total_scooters_elm_update) s
         in s)
      else if junction_name ev = hanley then
        (let s = incr total_hanley_road_update s
         in s\<lparr>hanley_counts_per_hour :=
               AList.update (hour ev) (dict_get (hanley_counts_per_hour s) (hour ev) 0 + 1)
                 (hanley_counts_per_hour s)\<rparr>)
      else s)"

text \<open>The statements of the loop body after the nine assignments, in their order. None of
  them can raise.\<close>

definition count_event :: "agg_state \<Rightarrow> vehicle_event \<Rightarrow> agg_state" where
  "count_event s ev =
     (let s = incr total_vehicles_update s;
          s = if_then (vehicle_type ev = ''Truck'') (incr total_trucks_update) s;
          s = if_then (vehicle_type ev \<in> set [''Bicycle'', ''Motorcycle'', ''Scooter''])
                (incr total_bikes_update) s;
          s = if_then (is_electric ev) (incr total_electric_vehicles_update) s;
          s = if_then (travel_in ev = travel_out ev) (incr total_no_turn_update) s;
          s = if_then (vehicle_speed ev > speed_limit ev) (incr total_speed_violations_update) s;
          s = if_then (contains ''rain'' (weather_condition ev))
                (\<lambda>s. s\<lparr>rain_hours := insert (hour ev) (rain_hours s)\<rparr>) s;
          s = count_junction ev s;
          s = if_then (vehicle_type ev = ''Bicycle'')
                (\<lambda>s. (incr total_bicycle_update s)\<lparr>bicycle_hours := insert (hour ev) (bicycle_hours s)\<rparr>) s
      in s)"

text \<open>
  The \<open>for row in reader\<close> loop with its \<open>try\<close>: a \<open>ValueError\<close> or \<open>KeyError\<close> of the
  nine assignments is caught and the loop goes on with the next row; any other exception
  leaves the loop.
\<close>

fun aggregate_rows :: "agg_state \<Rightarrow> row list \<Rightarrow> exn + agg_state" where
  "aggregate_rows s [] = Inr s"
| "aggregate_rows s (r # rs) =
     (case parse_row r of
        Inr ev \<Rightarrow> aggregate_rows (count_event s ev) rs
      | Inl e \<Rightarrow> if e = ValueError \<or> e = KeyError then aggregate_rows s rs else Inl e)"

section \<open>The derived metrics of \<open>process_csv_data\<close>\<close>

record analysis =
  res_file :: string
  res_totals :: totals_dict
  avg_bikes_per_hour :: int
  percentage_scooters_elm :: int
  percentage_trucks :: int
  peak_hour_ranges :: "string list"
  res_hanley_counts_per_hour :: "(string \<times> int) list"

text \<open>\<open>max(values, default=0)\<close>.\<close>

definition max_default :: "int list \<Rightarrow> int \<Rightarrow> int" where
  "max_default xs d = (if xs = [] then d else Max (set xs))"

text \<open>The hours of the per-hour Hanley counter whose count is the maximum, in the order
  of the counter.\<close>

definition peak_hours_of :: "(string \<times> int) list \<Rightarrow> string list" where
  "peak_hours_of hc =
     (let max_count = max_default (map snd hc) 0
      in map fst (filter (\<lambda>(h, c). c = max_count) hc))"

text \<open>\<open>f"Between {hour}:00 and {int(hour)+1}:00"\<close>.\<close>

definition hour_range :: "string \<Rightarrow> exn + string" where
  "hour_range h =
     bind (py_int h) (\<lambda>n. Inr (''Between '' @ h @ '':00 and '' @ py_str (n + 1) @ '':00''))"

fun hour_ranges :: "string list \<Rightarrow> exn + string list" where
  "hour_ranges [] = Inr []"
| "hour_ranges (h # hs) =
     bind (hour_range h) (\<lambda>r. bind (hour_ranges hs) (\<lambda>rs. Inr (r # rs)))"

text \<open>\<open>round((a / b) * 100)\<close>.\<close>

definition percentage :: "int \<Rightarrow> int \<Rightarrow> exn + int" where
  "percentage a b = bind (truediv a b) (\<lambda>q. Inr (py_round (fmul q 100)))"

text \<open>\<open>round(totals['total_bicycle'] / len(bicycle_hours)) if bicycle_hours else 0\<close>.\<close>

definition avg_bikes :: "int \<Rightarrow> string set \<Rightarrow> exn + int" where
  "avg_bikes bicycles hours =
     (if hours \<noteq> {} then bind (truediv bicycles (int (card hours))) (\<lambda>q. Inr (py_round q))
      else Inr 0)"

text \<open>\<open>round((scooters / elm_total) * 100) if elm_total > 0 else 0\<close>.\<close>

definition scooters_elm_percentage :: "int \<Rightarrow> int \<Rightarrow> exn + int" where
  "scooters_elm_percentage scooters elm_total =
     (if elm_total > 0 then percentage scooters elm_total else Inr 0)"

text \<open>The statements of \<open>process_csv_data\<close> after the loop, in their order; the truck
  percentage has no guard.\<close>

definition finalise :: "string \<Rightarrow> agg_state \<Rightarrow> exn + analysis" where
  "finalise file_path s =
     (let t = (totals s)\<lparr>total_rain_hours := int (card (rain_hours s))\<rparr> in
      bind (avg_bikes (total_bicycle t) (bicycle_hours s)) (\<lambda>avg.
      bind (scooters_elm_percentage (total_scooters_elm t) (total_elm_road t)) (\<lambda>scooters.
      bind (percentage (total_trucks t) (total_vehicles t)) (\<lambda>trucks.
      bind (hour_ranges (peak_hours_of (hanley_counts_per_hour s))) (\<lambda>ranges.
      Inr \<lparr>res_file = file_path, res_totals = t, avg_bikes_per_hour = avg,
           percentage_scooters_elm = scooters, percentage_trucks = trucks,
           peak_hour_ranges = ranges,
           res_hanley_counts_per_hour = hanley_counts_per_hour s\<rparr>)))))"

text \<open>
  \<open>process_csv_data\<close> on the rows that the reader yields for the file: the loop, then
  the derived metrics; whatever exception reaches the outer handler becomes a
  \<open>RuntimeError\<close>.
\<close>

definition process_body :: "string \<Rightarrow> row list \<Rightarrow> exn + analysis" where
  "process_body file_path rows = bind (aggregate_rows init_state rows) (finalise file_path)"

definition process_csv_data :: "string \<Rightarrow> row list \<Rightarrow> fatal + analysis" where
  "process_csv_data file_path rows =
     (case process_body file_path rows of Inl e \<Rightarrow> Inl (RuntimeError e) | Inr res \<Rightarrow> Inr res)"

section \<open>\<open>HistogramApp\<close>: the chart tally and its bars\<close>

type_synonym tally = "(int \<times> (string \<times> int) list) list"

definition init_tally :: tally where
  "init_tally = map (\<lambda>h. (h, [(elm, 0), (hanley, 0)])) [0..23]"

text \<open>\<open>d[k]\<close>: a \<open>KeyError\<close> when the key is absent.\<close>

definition subscript :: "('k \<times> 'v) list \<Rightarrow> 'k \<Rightarrow> exn + 'v" where
  "subscript d k = (case map_of d k of None \<Rightarrow> Inl KeyError | Some v \<Rightarrow> Inr v)"

definition row_subscript :: "row \<Rightarrow> string \<Rightarrow> exn + cell" where
  "row_subscript r k = (case r k of None \<Rightarrow> Inl KeyError | Some c \<Rightarrow> Inr c)"

text \<open>\<open>cell.split(':')[0]\<close>: \<open>None\<close> has no \<open>split\<close>.\<close>

definition cell_split_first :: "cell \<Rightarrow> exn + string" where
  "cell_split_first c = (case c of Text s \<Rightarrow> Inr (split_first s) | NoneCell \<Rightarrow> Inl AttributeError)"

text \<open>The body of the \<open>try\<close> in \<open>process_data\<close> for one row.\<close>

definition tally_row :: "tally \<Rightarrow> row \<Rightarrow> exn + tally" where
  "tally_row t r =
     bind (row_subscript r ''timeOfDay'') (\<lambda>c.
     bind (cell_split_first c) (\<lambda>h.
     bind (py_int h) (\<lambda>hour.
     bind (row_subscript r ''JunctionName'') (\<lambda>junction.
     bind (subscript t hour) (\<lambda>counts.
       (case junction of
          NoneCell \<Rightarrow> Inr t
        | Text j \<Rightarrow>
            (case map_of counts j of
               None \<Rightarrow> Inr t
             | Some n \<Rightarrow> Inr (AList.update hour (AList.update j (n + 1) counts) t))))))))"

text \<open>The loop of \<open>process_data\<close>: only a \<open>ValueError\<close> is caught.\<close>

fun tally_rows :: "tally \<Rightarrow> row list \<Rightarrow> exn + tally" where
  "tally_rows t [] = Inr t"
| "tally_rows t (r # rs) =
     (case tally_row t r of
        Inr t' \<Rightarrow> tally_rows t' rs
      | Inl e \<Rightarrow> if e = ValueError then tally_rows t rs else Inl e)"

definition process_data :: "row list \<Rightarrow> exn + tally" where
  "process_data traffic_data = tally_rows init_tally traffic_data"





datatype draw_cmd = Rectangle rat rat rat rat string | CanvasText rat rat string



text \<open>\<open>f"{hour:02d}"\<close>.\<close>

definition fmt_02d :: "int \<Rightarrow> string" where
  "fmt_02d h = (if 0 \<le> h \<and> h < 10 then CHR ''0'' # py_str h else py_str h)"



section \<open>The rows that parse\<close>

text \<open>The events of the rows that parse, in the order of the rows: what the pass is meant
  to aggregate.\<close>

fun parsed_events :: "row list \<Rightarrow> vehicle_event list" where
  "parsed_events [] = []"
| "parsed_events (r # rs) =
     (case parse_row r of Inr ev \<Rightarrow> ev # parsed_events rs | Inl e \<Rightarrow> parsed_events rs)"

section \<open>Example rows\<close>

text \<open>A row with text in all nine columns.\<close>

definition full_row :: "string \<Rightarrow> string \<Rightarrow> string \<Rightarrow> string \<Rightarrow> string \<Rightarrow> string \<Rightarrow> string \<Rightarrow> string \<Rightarrow> string \<Rightarrow> row" where
  "full_row jn tin tout speed vt el w limit t =
     map_of [(''JunctionName'', Text jn), (''travel_Direction_in'', Text tin),
             (''travel_Direction_out'', Text tout), (''VehicleSpeed'', Text speed),
             (''VehicleType'', Text vt), (''elctricHybrid'', Text el),
             (''Weather_Conditions'', Text w), (''JunctionSpeedLimit'', Text limit),
             (''timeOfDay'', Text t)]"

text \<open>The row of a line that has the first field only: the reader fills the other
  columns with \<open>None\<close>.\<close>

definition short_row :: row where
  "short_row = map_of [(''JunctionName'', Text ''Elm Avenue/Rabbit Road''), (''travel_Direction_in'', NoneCell),
             (''travel_Direction_out'', NoneCell), (''VehicleSpeed'', NoneCell),
             (''VehicleType'', NoneCell), (''elctricHybrid'', NoneCell),
             (''Weather_Conditions'', NoneCell), (''JunctionSpeedLimit'', NoneCell),
             (''timeOfDay'', NoneCell)]"

definition truck_row :: row where
  "truck_row =
     full_row ''Hanley Highway/Westway'' ''N'' ''S'' ''35'' ''Truck'' ''False'' ''Light Rain'' ''30'' ''7:30''"

definition bad_speed_row :: row where
  "bad_speed_row =
     full_row ''Hanley Highway/Westway'' ''N'' ''S'' ''fast'' ''Truck'' ''False'' ''Light Rain'' ''30'' ''07:30''"

text \<open>The twenty-four keys \<open>"00"\<close> to \<open>"23"\<close>.\<close>

definition hour_keys :: "string list" where
  "hour_keys = map fmt_02d [0..23]"

text \<open>The analysis of a file whose only row that parses is \<open>truck_row\<close>.\<close>

definition skip_result :: analysis where
  "skip_result = \<lparr>res_file = ''f.csv'',
        res_totals =
          \<lparr>total_vehicles = 1, total_trucks = 1, total_bikes = 0,
             total_electric_vehicles = 0, total_no_turn = 0,
             total_speed_violations = 1, total_rain_hours = 1,
             total_elm_road = 0, total_hanley_road = 1,
             total_buses_north = 0, total_scooters_elm = 0,
             total_bicycle = 0\<rparr>,
        avg_bikes_per_hour = 0, percentage_scooters_elm = 0,
        percentage_trucks = 100,
        peak_hour_ranges = [''Between 7:00 and 8:00''],
        res_hanley_counts_per_hour = [(''7'', 1)]\<rparr>"


section \<open>What the chart is meant to show\<close>



text \<open>The height of a drawn bar: its bottom edge minus its top edge.\<close>

fun bar_height :: "draw_cmd \<Rightarrow> rat option" where
  "bar_height (Rectangle x0 y0 x1 y1 fill) = Some (y1 - y0)"
| "bar_height (CanvasText x y s) = None"

definition bar_heights :: "draw_cmd list \<Rightarrow> rat list" where
  "bar_heights cmds = List.map_filter bar_height cmds"


text \<open>Rows for the chart: a timestamp at the end of the day, an hour that is not a
  number, and a row of a file that has no \<open>timeOfDay\<close> column.\<close>

definition late_row :: row where
  "late_row =
     full_row ''Elm Avenue/Rabbit Road'' ''N'' ''S'' ''28'' ''Car'' ''False'' ''Dry'' ''30'' ''24:00''"

definition bad_hour_row :: row where
  "bad_hour_row =
     full_row ''Elm Avenue/Rabbit Road'' ''N'' ''S'' ''28'' ''Car'' ''False'' ''Dry'' ''30'' ''noon''"

definition no_time_row :: row where
  "no_time_row = map_of [(''JunctionName'', Text ''Elm Avenue/Rabbit Road'')]"

section \<open>Basic facts\<close>

lemma bind_Inl [simp]: "bind (Inl e) f = Inl e"
  by (simp add: bind_def)

lemma bind_Inr [simp]: "bind (Inr x) f = f x"
  by (simp add: bind_def)

lemma bind_eq_Inr: "bind m f = Inr y \<longleftrightarrow> (\<exists>x. m = Inr x \<and> f x = Inr y)"
  by (cases m) simp_all

lemma elm_neq_hanley: "elm \<noteq> hanley"
  by (simp add: elm_def hanley_def)

subsection \<open>One event\<close>

lemma if_then_incr:
  "if_then c (incr total_trucks_update) s =
     s\<lparr>totals := (totals s)\<lparr>total_trucks := total_trucks (totals s) + (if c then 1 else 0)\<rparr>\<rparr>"
  "if_then c (incr total_bikes_update) s =
     s\<lparr>totals := (totals s)\<lparr>total_bikes := total_bikes (totals s) + (if c then 1 else 0)\<rparr>\<rparr>"
  "if_then c (incr total_electric_vehicles_update) s =
     s\<lparr>totals := (totals s)\<lparr>total_electric_vehicles :=
       total_electric_vehicles (totals s) + (if c then 1 else 0)\<rparr>\<rparr>"
  "if_then c (incr total_no_turn_update) s =
     s\<lparr>totals := (totals s)\<lparr>total_no_turn := total_no_turn (totals s) + (if c then 1 else 0)\<rparr>\<rparr>"
  "if_then c (incr total_speed_violations_update) s =
     s\<lparr>totals := (totals s)\<lparr>total_speed_violations :=
       total_speed_violations (totals s) + (if c then 1 else 0)\<rparr>\<rparr>"
  "if_then c (\<lambda>s. s\<lparr>rain_hours := insert h (rain_hours s)\<rparr>) s =
     s\<lparr>rain_hours := (if c then insert h (rain_hours s) else rain_hours s)\<rparr>"
  "if_then c (\<lambda>s. (incr total_bicycle_update s)\<lparr>bicycle_hours := insert h (bicycle_hours s)\<rparr>) s =
     s\<lparr>totals := (totals s)\<lparr>total_bicycle := total_bicycle (totals s) + (if c then 1 else 0)\<rparr>,
       bicycle_hours := (if c then insert h (bicycle_hours s) else bicycle_hours s)\<rparr>"
  by (simp_all add: if_then_def incr_def)

lemma incr_vehicles:
  "incr total_vehicles_update s =
     s\<lparr>totals := (totals s)\<lparr>total_vehicles := total_vehicles (totals s) + 1\<rparr>\<rparr>"
  by (simp add: incr_def)

lemma count_junction_eq:
  "count_junction ev s =
     s\<lparr>totals := (totals s)
         \<lparr>total_elm_road := total_elm_road (totals s) + (if junction_name ev = elm then 1 else 0),
          total_hanley_road := total_hanley_road (totals s) + (if junction_name ev = hanley then 1 else 0),
          total_buses_north := total_buses_north (totals s) +
            (if junction_name ev = elm \<and> travel_out ev = ''N'' \<and> vehicle_type ev = ''Buss'' then 1 else 0),
          total_scooters_elm := total_scooters_elm (totals s) +
            (if junction_name ev = elm \<and> vehicle_type ev = ''Scooter'' then 1 else 0)\<rparr>,
       hanley_counts_per_hour :=
         (if junction_name ev = hanley
          then AList.update (hour ev) (dict_get (hanley_counts_per_hour s) (hour ev) 0 + 1)
                 (hanley_counts_per_hour s)
          else hanley_counts_per_hour s)\<rparr>"
  using elm_neq_hanley by (simp add: count_junction_def Let_def if_then_def incr_def)

text \<open>What one event does to the state, field by field.\<close>

lemma count_event_eq:
  "count_event s ev =
     s\<lparr>totals := (totals s)
     \<lparr>total_vehicles := total_vehicles (totals s) + 1,
      total_trucks := total_trucks (totals s) + (if vehicle_type ev = ''Truck'' then 1 else 0),
      total_bikes := total_bikes (totals s) +
        (if vehicle_type ev \<in> {''Bicycle'', ''Motorcycle'', ''Scooter''} then 1 else 0),
      total_electric_vehicles := total_electric_vehicles (totals s) + (if is_electric ev then 1 else 0),
      total_no_turn := total_no_turn (totals s) + (if travel_in ev = travel_out ev then 1 else 0),
      total_speed_violations := total_speed_violations (totals s) +
        (if vehicle_speed ev > speed_limit ev then 1 else 0),
      total_elm_road := total_elm_road (totals s) + (if junction_name ev = elm then 1 else 0),
      total_hanley_road := total_hanley_road (totals s) + (if junction_name ev = hanley then 1 else 0),
      total_buses_north := total_buses_north (totals s) +
        (if junction_name ev = elm \<and> travel_out ev = ''N'' \<and> vehicle_type ev = ''Buss'' then 1 else 0),
      total_scooters_elm := total_scooters_elm (totals s) +
        (if junction_name ev = elm \<and> vehicle_type ev = ''Scooter'' then 1 else 0),
      total_bicycle := total_bicycle (totals s) + (if vehicle_type ev = ''Bicycle'' then 1 else 0)\<rparr>,
      hanley_counts_per_hour :=
         (if junction_name ev = hanley
          then AList.update (hour ev) (dict_get (hanley_counts_per_hour s) (hour ev) 0 + 1)
                 (hanley_counts_per_hour s)
          else hanley_counts_per_hour s),
      bicycle_hours := (if vehicle_type ev = ''Bicycle'' then insert (hour ev) (bicycle_hours s)
                        else bicycle_hours s),
      rain_hours := (if contains ''rain'' (weather_condition ev) then insert (hour ev) (rain_hours s)
                     else rain_hours s)\<rparr>"
  by (simp add: count_event_def Let_def if_then_incr count_junction_eq incr_vehicles
        split del: if_split cong: if_cong)

subsection \<open>The loop\<close>

lemma aggregate_rows_Inr:
  "aggregate_rows s rows = Inr s' \<Longrightarrow> s' = foldl count_event s (parsed_events rows)"
proof (induction rows arbitrary: s)
  case Nil
  then show ?case by simp
next
  case (Cons r rows)
  then show ?case by (cases "parse_row r") (auto split: if_splits)
qed

lemma aggregate_rows_filter:
  "aggregate_rows s rows = Inr s' \<Longrightarrow>
   aggregate_rows s (filter (\<lambda>r. \<not> isl (parse_row r)) rows) = Inr s'"
proof (induction rows arbitrary: s)
  case Nil
  then show ?case by simp
next
  case (Cons r rows)
  then show ?case by (cases "parse_row r") (auto split: if_splits)
qed

section \<open>Row skipping\<close>

text \<open>
  Claim C3 says that a row that fails to parse is skipped and that no exception leaves the
  aggregation loop. The loop catches \<open>ValueError\<close> and \<open>KeyError\<close> only. A line with
  fewer fields than the header gives a row whose missing cells are \<open>None\<close>;
  \<open>None.strip()\<close> raises an \<open>AttributeError\<close>, which leaves the loop and ends the
  whole pass in a \<open>RuntimeError\<close>, also when the rows around it are fine.
\<close>

theorem short_row_aborts_pass:
  "parse_row short_row = Inl AttributeError \<and>
   aggregate_rows init_state [truck_row, short_row, truck_row] = Inl AttributeError \<and>
   process_csv_data ''traffic_data15062024.csv'' [truck_row, short_row, truck_row]
     = Inl (RuntimeError AttributeError)"
  by code_simp

text \<open>
  Claim C4: a skipped row leaves no trace. When \<open>process_csv_data\<close> returns a result, it
  is the result of aggregating exactly the events of the rows that parse, and the same
  result comes out when the rows that fail are taken out of the input.
\<close>

theorem row_skip_atomic:
  assumes "process_body f rows = Inr res"
  shows "finalise f (foldl count_event init_state (parsed_events rows)) = Inr res \<and>
         process_body f (filter (\<lambda>r. \<not> isl (parse_row r)) rows) = Inr res"
proof -
  from assms obtain s where s: "aggregate_rows init_state rows = Inr s" and fin: "finalise f s = Inr res"
    by (auto simp: process_body_def bind_eq_Inr)
  from aggregate_rows_Inr [OF s] fin have "finalise f (foldl count_event init_state (parsed_events rows)) = Inr res"
    by simp
  moreover from aggregate_rows_filter [OF s] fin
  have "process_body f (filter (\<lambda>r. \<not> isl (parse_row r)) rows) = Inr res"
    by (simp add: process_body_def)
  ultimately show ?thesis by simp
qed

theorem row_skip_atomic_witness:
  "process_body ''f.csv'' [bad_speed_row, truck_row, bad_speed_row] = Inr skip_result \<and>
   parse_row bad_speed_row = Inl ValueError \<and>
   process_body ''f.csv'' (filter (\<lambda>r. \<not> isl (parse_row r)) [bad_speed_row, truck_row, bad_speed_row])
     = Inr skip_result"
proof -
  have h: "process_body ''f.csv'' [bad_speed_row, truck_row, bad_speed_row] = Inr skip_result"
    by code_simp
  have b: "parse_row bad_speed_row = Inl ValueError"
    by code_simp
  from row_skip_atomic [OF h] h b show ?thesis by simp
qed

section \<open>The hour key\<close>

text \<open>
  Claim C5 says that the hour key of every row that parses is one of \<open>"00"\<close> to
  \<open>"23"\<close>. The key is the text before the first colon, unchanged: \<open>7:30\<close> gives
  the key \<open>"7"\<close>.
\<close>

theorem hour_key_two_digit_counterexample:
  "parse_row truck_row =
     Inr \<lparr>junction_name = ''Hanley Highway/Westway'', travel_in = ''N'',
        travel_out = ''S'', vehicle_speed = 35, vehicle_type = ''Truck'',
        is_electric = False, weather_condition = ''light rain'',
        speed_limit = 30, hour = ''7''\<rparr> \<and> ''7'' \<notin> set hour_keys"
  by code_simp

text \<open>
  Claim C5 as amended: for every row that parses, the hour key is the text of the
  \<open>timeOfDay\<close> field before its first colon, taken as it is, and \<open>"00"\<close> when the
  column is absent.
\<close>

theorem hour_key_verbatim:
  assumes "parse_row r = Inr ev"
  shows "(r ''timeOfDay'' = None \<and> hour ev = ''00'') \<or>
         (\<exists>t. r ''timeOfDay'' = Some (Text t) \<and> hour ev = takeWhile (\<lambda>c. c \<noteq> CHR '':'') t)"
proof -
  from assms obtain t where t: "get_str r ''timeOfDay'' ''00:00'' = Inr t" and h: "hour ev = split_first t"
    by (auto simp: parse_row_def bind_eq_Inr)
  show ?thesis
  proof (cases "r ''timeOfDay''")
    case None
    with t have "t = ''00:00''" by (simp add: get_str_def)
    with None h show ?thesis by (simp add: split_first_def)
  next
    case (Some c)
    with t h show ?thesis by (cases c) (simp_all add: get_str_def split_first_def)
  qed
qed

theorem hour_key_verbatim_witness:
  "parse_row truck_row =
     Inr \<lparr>junction_name = ''Hanley Highway/Westway'', travel_in = ''N'',
        travel_out = ''S'', vehicle_speed = 35, vehicle_type = ''Truck'',
        is_electric = False, weather_condition = ''light rain'',
        speed_limit = 30, hour = ''7''\<rparr> \<and>
   truck_row ''timeOfDay'' = Some (Text ''7:30'')"
proof -
  have h: "parse_row truck_row =
     Inr \<lparr>junction_name = ''Hanley Highway/Westway'', travel_in = ''N'',
        travel_out = ''S'', vehicle_speed = 35, vehicle_type = ''Truck'',
        is_electric = False, weather_condition = ''light rain'',
        speed_limit = 30, hour = ''7''\<rparr>"
    by code_simp
  have "truck_row ''timeOfDay'' = Some (Text ''7:30'')"
    by (simp add: truck_row_def full_row_def)
  with hour_key_verbatim [OF h] h show ?thesis by simp
qed

section \<open>The no-turn counter\<close>



subsection \<open>The result\<close>

lemma finalise_Inr:
  assumes "finalise f s = Inr res"
  shows "res_totals res = (totals s)\<lparr>total_rain_hours := int (card (rain_hours s))\<rparr>"
    and "avg_bikes (total_bicycle (totals s)) (bicycle_hours s) = Inr (avg_bikes_per_hour res)"
    and "scooters_elm_percentage (total_scooters_elm (totals s)) (total_elm_road (totals s))
           = Inr (percentage_scooters_elm res)"
    and "percentage (total_trucks (totals s)) (total_vehicles (totals s)) = Inr (percentage_trucks res)"
    and "hour_ranges (peak_hours_of (hanley_counts_per_hour s)) = Inr (peak_hour_ranges res)"
    and "res_hanley_counts_per_hour res = hanley_counts_per_hour s"
proof -
  let ?t = "(totals s)\<lparr>total_rain_hours := int (card (rain_hours s))\<rparr>"
  from assms obtain avg sc tr rs where
    a: "avg_bikes (total_bicycle ?t) (bicycle_hours s) = Inr avg" and
    b: "scooters_elm_percentage (total_scooters_elm ?t) (total_elm_road ?t) = Inr sc" and
    c: "percentage (total_trucks ?t) (total_vehicles ?t) = Inr tr" and
    d: "hour_ranges (peak_hours_of (hanley_counts_per_hour s)) = Inr rs" and
    r: "res = \<lparr>res_file = f, res_totals = ?t, avg_bikes_per_hour = avg,
           percentage_scooters_elm = sc, percentage_trucks = tr,
           peak_hour_ranges = rs,
           res_hanley_counts_per_hour = hanley_counts_per_hour s\<rparr>"
    unfolding finalise_def Let_def bind_eq_Inr by blast
  from r show "res_totals res = ?t" by simp
  from a r show "avg_bikes (total_bicycle (totals s)) (bicycle_hours s) = Inr (avg_bikes_per_hour res)"
    by simp
  from b r show "scooters_elm_percentage (total_scooters_elm (totals s)) (total_elm_road (totals s))
           = Inr (percentage_scooters_elm res)" by simp
  from c r show "percentage (total_trucks (totals s)) (total_vehicles (totals s)) = Inr (percentage_trucks res)"
    by simp
  from d r show "hour_ranges (peak_hours_of (hanley_counts_per_hour s)) = Inr (peak_hour_ranges res)"
    by simp
  from r show "res_hanley_counts_per_hour res = hanley_counts_per_hour s" by simp
qed


lemma process_body_Inr:
  assumes "process_body f rows = Inr res"
  obtains s where "aggregate_rows init_state rows = Inr s" and "finalise f s = Inr res"
    and "s = foldl count_event init_state (parsed_events rows)"
proof -
  from assms obtain s where s: "aggregate_rows init_state rows = Inr s" and fin: "finalise f s = Inr res"
    unfolding process_body_def bind_eq_Inr by blast
  from s have "s = foldl count_event init_state (parsed_events rows)"
    by (rule aggregate_rows_Inr)
  with s fin show thesis by (rule that)
qed

lemma process_csv_data_Inr: "process_csv_data f rows = Inr res \<longleftrightarrow> process_body f rows = Inr res"
  by (simp add: process_csv_data_def split: sum.splits)

subsection \<open>The totals\<close>

lemma count_event_fields:
  "total_vehicles (totals (count_event s ev)) = total_vehicles (totals s) + 1"
  "total_trucks (totals (count_event s ev)) =
     total_trucks (totals s) + (if vehicle_type ev = ''Truck'' then 1 else 0)"
  "total_bikes (totals (count_event s ev)) = total_bikes (totals s) +
     (if vehicle_type ev \<in> {''Bicycle'', ''Motorcycle'', ''Scooter''} then 1 else 0)"
  "total_electric_vehicles (totals (count_event s ev)) =
     total_electric_vehicles (totals s) + (if is_electric ev then 1 else 0)"
  "total_no_turn (totals (count_event s ev)) =
     total_no_turn (totals s) + (if travel_in ev = travel_out ev then 1 else 0)"
  "total_speed_violations (totals (count_event s ev)) =
     total_speed_violations (totals s) + (if vehicle_speed ev > speed_limit ev then 1 else 0)"
  "total_elm_road (totals (count_event s ev)) =
     total_elm_road (totals s) + (if junction_name ev = elm then 1 else 0)"
  "total_hanley_road (totals (count_event s ev)) =
     total_hanley_road (totals s) + (if junction_name ev = hanley then 1 else 0)"
  "total_buses_north (totals (count_event s ev)) = total_buses_north (totals s) +
     (if junction_name ev = elm \<and> travel_out ev = ''N'' \<and> vehicle_type ev = ''Buss'' then 1 else 0)"
  "total_scooters_elm (totals (count_event s ev)) = total_scooters_elm (totals s) +
     (if junction_name ev = elm \<and> vehicle_type ev = ''Scooter'' then 1 else 0)"
  "total_bicycle (totals (count_event s ev)) =
     total_bicycle (totals s) + (if vehicle_type ev = ''Bicycle'' then 1 else 0)"
  by (simp_all add: count_event_eq split del: if_split)


lemma foldl_count_event_total:
  assumes "\<And>s ev. f (count_event s ev) = f s + (if P ev then 1 else 0)"
  shows "f (foldl count_event s evs) = f s + int (length (filter P evs))"
proof (induction evs arbitrary: s)
  case Nil
  show ?case by simp
next
  case (Cons ev evs)
  show ?case by (simp add: Cons.IH assms)
qed


text \<open>Every total counts the events of its category.\<close>

lemma totals_of_events:
  "total_vehicles (totals (foldl count_event s evs)) = total_vehicles (totals s) + int (length evs)"
  "total_trucks (totals (foldl count_event s evs)) =
     total_trucks (totals s) + int (length (filter (\<lambda>ev. vehicle_type ev = ''Truck'') evs))"
  "total_bikes (totals (foldl count_event s evs)) =
     total_bikes (totals s) + int (length (filter (\<lambda>ev. vehicle_type ev \<in> {''Bicycle'', ''Motorcycle'', ''Scooter''}) evs))"
  "total_electric_vehicles (totals (foldl count_event s evs)) =
     total_electric_vehicles (totals s) + int (length (filter (is_electric) evs))"
  "total_no_turn (totals (foldl count_event s evs)) =
     total_no_turn (totals s) + int (length (filter (\<lambda>ev. travel_in ev = travel_out ev) evs))"
  "total_speed_violations (totals (foldl count_event s evs)) =
     total_speed_violations (totals s) + int (length (filter (\<lambda>ev. vehicle_speed ev > speed_limit ev) evs))"
  "total_elm_road (totals (foldl count_event s evs)) =
     total_elm_road (totals s) + int (length (filter (\<lambda>ev. junction_name ev = elm) evs))"
  "total_hanley_road (totals (foldl count_event s evs)) =
     total_hanley_road (totals s) + int (length (filter (\<lambda>ev. junction_name ev = hanley) evs))"
  "total_buses_north (totals (foldl count_event s evs)) =
     total_buses_north (totals s) + int (length (filter (\<lambda>ev. junction_name ev = elm \<and> travel_out ev = ''N'' \<and> vehicle_type ev = ''Buss'') evs))"
  "total_scooters_elm (totals (foldl count_event s evs)) =
     total_scooters_elm (totals s) + int (length (filter (\<lambda>ev. junction_name ev = elm \<and> vehicle_type ev = ''Scooter'') evs))"
  "total_bicycle (totals (foldl count_event s evs)) =
     total_bicycle (totals s) + int (length (filter (\<lambda>ev. vehicle_type ev = ''Bicycle'') evs))"
proof -
  show "total_vehicles (totals (foldl count_event s evs)) = total_vehicles (totals s) + int (length evs)"
    using foldl_count_event_total [where f = "\<lambda>s. total_vehicles (totals s)" and P = "\<lambda>ev. True"]
    by (simp add: count_event_fields)
  show "total_trucks (totals (foldl count_event s evs)) =
     total_trucks (totals s) + int (length (filter (\<lambda>ev. vehicle_type ev = ''Truck'') evs))"
    using foldl_count_event_total [where f = "\<lambda>s. total_trucks (totals s)" and P = "\<lambda>ev. vehicle_type ev = ''Truck''"]
    by (simp add: count_event_fields)
  show "total_bikes (totals (foldl count_event s evs)) =
     total_bikes (totals s) + int (length (filter (\<lambda>ev. vehicle_type ev \<in> {''Bicycle'', ''Motorcycle'', ''Scooter''}) evs))"
    using foldl_count_event_total [where f = "\<lambda>s. total_bikes (totals s)" and P = "\<lambda>ev. vehicle_type ev \<in> {''Bicycle'', ''Motorcycle'', ''Scooter''}"]
    by (simp add: count_event_fields)
  show "total_electric_vehicles (totals (foldl count_event s evs)) =
     total_electric_vehicles (totals s) + int (length (filter (is_electric) evs))"
    using foldl_count_event_total [where f = "\<lambda>s. total_electric_vehicles (totals s)" and P = "is_electric"]
    by (simp add: count_event_fields)
  show "total_no_turn (totals (foldl count_event s evs)) =
     total_no_turn (totals s) + int (length (filter (\<lambda>ev. travel_in ev = travel_out ev) evs))"
    using foldl_count_event_total [where f = "\<lambda>s. total_no_turn (totals s)" and P = "\<lambda>ev. travel_in ev = travel_out ev"]
    by (simp add: count_event_fields)
  show "total_speed_violations (totals (foldl count_event s evs)) =
     total_speed_violations (totals s) + int (length (filter (\<lambda>ev. vehicle_speed ev > speed_limit ev) evs))"
    using foldl_count_event_total [where f = "\<lambda>s. total_speed_violations (totals s)" and P = "\<lambda>ev. vehicle_speed ev > speed_limit ev"]
    by (simp add: count_event_fields)
  show "total_elm_road (totals (foldl count_event s evs)) =
     total_elm_road (totals s) + int (length (filter (\<lambda>ev. junction_name ev = elm) evs))"
    using foldl_count_event_total [where f = "\<lambda>s. total_elm_road (totals s)" and P = "\<lambda>ev. junction_name ev = elm"]
    by (simp add: count_event_fields)
  show "total_hanley_road (totals (foldl count_event s evs)) =
     total_hanley_road (totals s) + int (length (filter (\<lambda>ev. junction_name ev = hanley) evs))"
    using foldl_count_event_total [where f = "\<lambda>s. total_hanley_road (totals s)" and P = "\<lambda>ev. junction_name ev = hanley"]
    by (simp add: count_event_fields)
  show "total_buses_north (totals (foldl count_event s evs)) =
     total_buses_north (totals s) + int (length (filter (\<lambda>ev. junction_name ev = elm \<and> travel_out ev = ''N'' \<and> vehicle_type ev = ''Buss'') evs))"
    using foldl_count_event_total [where f = "\<lambda>s. total_buses_north (totals s)" and P = "\<lambda>ev. junction_name ev = elm \<and> travel_out ev = ''N'' \<and> vehicle_type ev = ''Buss''"]
    by (simp add: count_event_fields)
  show "total_scooters_elm (totals (foldl count_event s evs)) =
     total_scooters_elm (totals s) + int (length (filter (\<lambda>ev. junction_name ev = elm \<and> vehicle_type ev = ''Scooter'') evs))"
    using foldl_count_event_total [where f = "\<lambda>s. total_scooters_elm (totals s)" and P = "\<lambda>ev. junction_name ev = elm \<and> vehicle_type ev = ''Scooter''"]
    by (simp add: count_event_fields)
  show "total_bicycle (totals (foldl count_event s evs)) =
     total_bicycle (totals s) + int (length (filter (\<lambda>ev. vehicle_type ev = ''Bicycle'') evs))"
    using foldl_count_event_total [where f = "\<lambda>s. total_bicycle (totals s)" and P = "\<lambda>ev. vehicle_type ev = ''Bicycle''"]
    by (simp add: count_event_fields)
qed

section \<open>Category totals\<close>

text \<open>
  Claim C8: in every result of \<open>process_csv_data\<close>, each of the ten category totals
  (trucks, bikes, electric vehicles, no-turn, speed violations, Elm total, Hanley total,
  buses north, scooters at Elm, bicycles) is at least \<open>0\<close> and at most the total vehicle
  count.
\<close>

theorem category_totals_bounded:
  assumes "process_csv_data f rows = Inr res"
  shows "(let t = res_totals res; n = total_vehicles t in
          0 \<le> total_trucks t \<and> total_trucks t \<le> n \<and>
          0 \<le> total_bikes t \<and> total_bikes t \<le> n \<and>
          0 \<le> total_electric_vehicles t \<and> total_electric_vehicles t \<le> n \<and>
          0 \<le> total_no_turn t \<and> total_no_turn t \<le> n \<and>
          0 \<le> total_speed_violations t \<and> total_speed_violations t \<le> n \<and>
          0 \<le> total_elm_road t \<and> total_elm_road t \<le> n \<and>
          0 \<le> total_hanley_road t \<and> total_hanley_road t \<le> n \<and>
          0 \<le> total_buses_north t \<and> total_buses_north t \<le> n \<and>
          0 \<le> total_scooters_elm t \<and> total_scooters_elm t \<le> n \<and>
          0 \<le> total_bicycle t \<and> total_bicycle t \<le> n)"
proof -
  from assms have "process_body f rows = Inr res"
    by (simp add: process_csv_data_Inr)
  then obtain s where fin: "finalise f s = Inr res"
    and s: "s = foldl count_event init_state (parsed_events rows)"
    by (rule process_body_Inr)
  have t: "res_totals res = (totals s)\<lparr>total_rain_hours := int (card (rain_hours s))\<rparr>"
    using fin by (rule finalise_Inr)
  show ?thesis
    unfolding Let_def t s by (simp add: totals_of_events init_state_def)
qed

theorem category_totals_bounded_witness:
  "process_csv_data ''f.csv'' [bad_speed_row, truck_row, bad_speed_row] = Inr skip_result \<and>
   total_trucks (res_totals skip_result) = 1 \<and> total_vehicles (res_totals skip_result) = 1 \<and>
   total_bicycle (res_totals skip_result) = 0"
proof -
  have h: "process_csv_data ''f.csv'' [bad_speed_row, truck_row, bad_speed_row] = Inr skip_result"
    by code_simp
  from category_totals_bounded [OF h] h show ?thesis
    by (simp add: skip_result_def)
qed

section \<open>Peak hours\<close>





section \<open>The chart tally\<close>

text \<open>
  Claim C7 says that building the tally never raises. \<open>process_data\<close> catches
  \<open>ValueError\<close> only, so a row whose hour is not a number is skipped; but an hour outside
  \<open>0\<close> to \<open>23\<close> (the timestamp \<open>24:00\<close>) or a missing \<open>timeOfDay\<close> column raises a
  \<open>KeyError\<close> that leaves \<open>process_data\<close>, for rows that \<open>process_csv_data\<close>, whose
  handler catches \<open>KeyError\<close> too, has accepted just before.
\<close>

theorem chart_tally_raises:
  "process_data [bad_hour_row] = Inr init_tally \<and>
   process_data [late_row] = Inl KeyError \<and>
   \<not> isl (process_csv_data ''traffic_data15062024.csv'' [late_row]) \<and>
   process_data [no_time_row] = Inl KeyError \<and>
   \<not> isl (process_csv_data ''traffic_data15062024.csv'' [no_time_row])"
  by code_simp

subsection \<open>The tally of the rows\<close>

lemma fl_0 [simp]: "fl 0 = 0"
  by (simp add: fl_def)












subsection \<open>The bars of an empty chart\<close>

lemma bar_heights_simps [simp]:
  "bar_heights [] = []"
  "bar_heights (Rectangle x0 y0 x1 y1 fill # cmds) = (y1 - y0) # bar_heights cmds"
  "bar_heights (CanvasText x y s # cmds) = bar_heights cmds"
  by (simp_all add: bar_heights_def map_filter_simps)

lemma bar_heights_append [simp]: "bar_heights (xs @ ys) = bar_heights xs @ bar_heights ys"
proof (induction xs)
  case Nil
  show ?case by simp
next
  case (Cons c xs)
  then show ?case by (cases c) simp_all
qed






section \<open>Facts about the floating-point operations\<close>

subsection \<open>Rounding to an integer\<close>

lemma round_half_even_of_int [simp]: "round_half_even (of_int n) = n"
  by (simp add: round_half_even_def)

lemma round_half_even_le: "x \<le> of_int n \<Longrightarrow> round_half_even x \<le> n"
proof -
  assume a: "x \<le> of_int n"
  show ?thesis
  proof (cases "x = of_int n")
    case True
    then show ?thesis by simp
  next
    case False
    with a have "x < of_int n" by simp
    then have "\<lfloor>x\<rfloor> < n" by (simp add: floor_less_iff)
    then show ?thesis by (simp add: round_half_even_def Let_def)
  qed
qed

lemma round_half_even_ge: "of_int n \<le> x \<Longrightarrow> n \<le> round_half_even x"
proof -
  assume "of_int n \<le> x"
  then have "n \<le> \<lfloor>x\<rfloor>" by (simp add: le_floor_iff)
  then show ?thesis by (simp add: round_half_even_def Let_def)
qed

lemma round_half_even_err: "\<bar>of_int (round_half_even x) - x\<bar> \<le> 1 / 2"
proof -
  have "of_int \<lfloor>x\<rfloor> \<le> x" and "x < of_int \<lfloor>x\<rfloor> + 1"
    by linarith+
  then show ?thesis
    by (auto simp: round_half_even_def Let_def abs_le_iff)
qed

lemma int_between:
  assumes "(of_int a :: rat) - 1 < of_int b" and "(of_int b :: rat) < of_int a + 1"
  shows "a = b"
proof -
  from assms have "(of_int (a - 1) :: rat) < of_int b" "(of_int b :: rat) < of_int (a + 1)"
    by simp_all
  then have "a - 1 < b" "b < a + 1"
    by (simp_all only: of_int_less_iff)
  then show ?thesis by simp
qed

lemma round_half_even_nearest:
  assumes "\<bar>of_int n - x\<bar> < 1 / 2"
  shows "round_half_even x = n"
proof -
  have f: "of_int \<lfloor>x\<rfloor> \<le> x" "x < of_int \<lfloor>x\<rfloor> + 1"
    by linarith+
  from assms have b: "x < of_int n + 1 / 2" "of_int n - 1 / 2 < x"
    by linarith+
  show ?thesis
  proof (cases "x - of_int \<lfloor>x\<rfloor> < 1 / 2")
    case True
    have "n = \<lfloor>x\<rfloor>"
      using True f b by (intro int_between) linarith+
    with True show ?thesis by (simp add: round_half_even_def Let_def)
  next
    case False
    have n: "n = \<lfloor>x\<rfloor> + 1"
      using False f b by (intro int_between) (simp; linarith)+
    have "x - of_int \<lfloor>x\<rfloor> \<noteq> 1 / 2"
      using b n by simp
    with False n show ?thesis by (simp add: round_half_even_def Let_def)
  qed
qed


subsection \<open>Rounding to a double\<close>

lemma ilog2_lower:
  assumes "x \<noteq> 0"
  shows "2 powi (ilog2 x) \<le> \<bar>x\<bar>"
proof -
  obtain p q where pq: "quotient_of \<bar>x\<bar> = (p, q)"
    by (cases "quotient_of \<bar>x\<bar>")
  then have q: "0 < q" and x: "\<bar>x\<bar> = of_int p / of_int q"
    by (simp_all add: quotient_of_denom_pos quotient_of_div)
  from assms have "0 < \<bar>x\<bar>" by simp
  with x q have p: "0 < p"
    by (simp add: zero_less_divide_iff)
  let ?d = "bitlen p - bitlen q"
  have il: "ilog2 x = (if 2 powi ?d \<le> \<bar>x\<bar> then ?d else ?d - 1)"
    by (simp add: ilog2_def pq Let_def)
  show ?thesis
  proof (cases "2 powi ?d \<le> \<bar>x\<bar>")
    case True
    with il show ?thesis by simp
  next
    case False
    from p have bp: "1 \<le> bitlen p"
      using bitlen_eq_zero_iff [of p] bitlen_nonneg [of p] by linarith
    have "(2::int) ^ nat (bitlen p - 1) \<le> p"
      using bitlen_bounds [OF p] by simp
    then have "(of_int (2 ^ nat (bitlen p - 1)) :: rat) \<le> of_int p"
      by (simp only: of_int_le_iff)
    then have lo: "(2::rat) powi (bitlen p - 1) \<le> of_int p"
      using bp by (simp add: power_int_nonneg_exp)
    have "q < 2 ^ nat (bitlen q)"
      using bitlen_bounds [OF q] by simp
    then have "(of_int q :: rat) < of_int (2 ^ nat (bitlen q))"
      by (simp only: of_int_less_iff)
    then have hi: "of_int q \<le> (2::rat) powi (bitlen q)"
      using bitlen_nonneg [of q] by (simp add: power_int_nonneg_exp)
    have "(2::rat) powi (?d - 1) = 2 powi (bitlen p - 1) / 2 powi (bitlen q)"
      using power_int_diff [of "2::rat" "bitlen p - 1" "bitlen q"] by (simp add: algebra_simps)
    also have "\<dots> \<le> of_int p / of_int q"
      using lo hi q p by (intro frac_le) simp_all
    finally show ?thesis
      using il False x by simp
  qed
qed

lemma fl_scaled:
  assumes "x \<noteq> 0" and "\<bar>x\<bar> < 2 ^ 53"
  obtains k :: nat where "fl x = of_int (round_half_even (x * 2 ^ k)) / 2 ^ k"
    and "2 ^ 52 \<le> \<bar>x\<bar> * 2 ^ k"
proof -
  have "(2::rat) powi (ilog2 x) \<le> \<bar>x\<bar>"
    using assms(1) by (rule ilog2_lower)
  also have "\<bar>x\<bar> < 2 powi 53"
    using assms(2) by simp
  finally have "ilog2 x < 53"
    by (rule power_int_le_imp_less_exp [rotated]) simp_all
  define k where "k = nat (52 - ilog2 x)"
  with \<open>ilog2 x < 53\<close> have e: "ilog2 x - 52 = - int k" and l: "ilog2 x = 52 - int k"
    by simp_all
  have p: "(2::rat) powi (- int k) = inverse (2 ^ k)"
    by (simp add: power_int_minus)
  have a: "fl x = of_int (round_half_even (x * 2 ^ k)) / 2 ^ k"
    using assms(1) by (simp add: fl_def e p Let_def divide_inverse)
  have "(2::rat) powi 52 = 2 powi (ilog2 x) * 2 powi (int k)"
    unfolding l using power_int_add [of "2::rat" "52 - int k" "int k"] by simp
  also have "\<dots> \<le> \<bar>x\<bar> * 2 powi (int k)"
    using ilog2_lower [OF assms(1)] by (intro mult_right_mono) simp_all
  finally have b: "2 ^ 52 \<le> \<bar>x\<bar> * 2 ^ k"
    by simp
  from a b show thesis by (rule that)
qed

lemma fl_nonneg: "0 \<le> x \<Longrightarrow> 0 \<le> fl x"
  using round_half_even_ge [of 0 "x / 2 powi (ilog2 x - 52)"]
  by (simp add: fl_def Let_def)

lemma fl_le_int:
  assumes "x \<le> of_int c" and "0 \<le> x" and "c < 2 ^ 53"
  shows "fl x \<le> of_int c"
proof (cases "x = 0")
  case True
  with assms show ?thesis by simp
next
  case False
  from assms have "x < 2 ^ 53"
  proof -
    from assms(3) have "(of_int c :: rat) < of_int (2 ^ 53)" by (simp only: of_int_less_iff)
    with assms(1) show ?thesis by simp
  qed
  with assms(2) have "\<bar>x\<bar> < 2 ^ 53" by simp
  with False obtain k :: nat where k: "fl x = of_int (round_half_even (x * 2 ^ k)) / 2 ^ k"
    by (rule fl_scaled)
  from assms(1) have "x * 2 ^ k \<le> of_int (c * 2 ^ k)"
    by (simp add: mult_right_mono)
  then have "round_half_even (x * 2 ^ k) \<le> c * 2 ^ k"
    by (rule round_half_even_le)
  then have "(of_int (round_half_even (x * 2 ^ k)) :: rat) \<le> of_int (c * 2 ^ k)"
    by (simp only: of_int_le_iff)
  then show ?thesis
    by (simp add: k divide_le_eq)
qed

lemma fl_ge_int:
  assumes "of_int c \<le> x" and "0 \<le> c" and "x < 2 ^ 53"
  shows "of_int c \<le> fl x"
proof (cases "x = 0")
  case True
  with assms show ?thesis by simp
next
  case False
  from assms have "0 \<le> x" by (metis of_int_0_le_iff order_trans)
  with assms(3) have "\<bar>x\<bar> < 2 ^ 53" by simp
  with False obtain k :: nat where k: "fl x = of_int (round_half_even (x * 2 ^ k)) / 2 ^ k"
    by (rule fl_scaled)
  from assms(1) have "of_int (c * 2 ^ k) \<le> x * 2 ^ k"
    by (simp add: mult_right_mono)
  then have "c * 2 ^ k \<le> round_half_even (x * 2 ^ k)"
    by (rule round_half_even_ge)
  then have "(of_int (c * 2 ^ k) :: rat) \<le> of_int (round_half_even (x * 2 ^ k))"
    by (simp only: of_int_le_iff)
  then show ?thesis
    by (simp add: k le_divide_eq)
qed

lemma fl_err:
  assumes "\<bar>x\<bar> < 2 ^ 53"
  shows "\<bar>fl x - x\<bar> \<le> \<bar>x\<bar> / 2 ^ 53"
proof (cases "x = 0")
  case True
  then show ?thesis by simp
next
  case False
  from False assms obtain k :: nat where k: "fl x = of_int (round_half_even (x * 2 ^ k)) / 2 ^ k"
    and lo: "2 ^ 52 \<le> \<bar>x\<bar> * 2 ^ k"
    by (rule fl_scaled)
  have "fl x - x = (of_int (round_half_even (x * 2 ^ k)) - x * 2 ^ k) / 2 ^ k"
    by (simp add: k diff_divide_distrib)
  then have "\<bar>fl x - x\<bar> = \<bar>of_int (round_half_even (x * 2 ^ k)) - x * 2 ^ k\<bar> / 2 ^ k"
    by (simp only: abs_divide) simp
  also have "\<dots> \<le> (1 / 2) / 2 ^ k"
    by (intro divide_right_mono round_half_even_err) simp
  also have "\<dots> \<le> \<bar>x\<bar> / 2 ^ 53"
    using lo by (simp add: field_simps)
  finally show ?thesis .
qed


subsection \<open>\<open>round((a / b) * 100)\<close>\<close>

lemma percentage_eq:
  "percentage a b =
     (if b = 0 then Inl ZeroDivisionError
      else Inr (py_round (fmul (fl (of_int a / of_int b)) 100)))"
  by (simp add: percentage_def truediv_def)

lemma quotient_unit:
  assumes "0 \<le> a" and "a \<le> b" and "0 < b"
  shows "0 \<le> (of_int a / of_int b :: rat)" and "(of_int a / of_int b :: rat) \<le> 1"
  using assms by simp_all

lemma fl_quotient_unit:
  assumes "0 \<le> a" and "a \<le> b" and "0 < b"
  shows "0 \<le> fl (of_int a / of_int b)" and "fl (of_int a / of_int b) \<le> 1"
proof -
  show "0 \<le> fl (of_int a / of_int b)"
    using assms by (intro fl_nonneg) simp
  show "fl (of_int a / of_int b) \<le> 1"
    using fl_le_int [of "of_int a / of_int b" 1] assms by simp
qed

lemma fmul_100_range:
  assumes "0 \<le> q" and "q \<le> 1"
  shows "0 \<le> fmul q 100" and "fmul q 100 \<le> 100"
proof -
  show "0 \<le> fmul q 100"
    using assms by (simp add: fmul_def fl_nonneg)
  show "fmul q 100 \<le> 100"
    using fl_le_int [of "q * 100" 100] assms by (simp add: fmul_def)
qed

lemma percentage_range:
  assumes "0 \<le> a" and "a \<le> b" and "0 < b"
  shows "0 \<le> py_round (fmul (fl (of_int a / of_int b)) 100)"
    and "py_round (fmul (fl (of_int a / of_int b)) 100) \<le> 100"
proof -
  let ?q = "fl (of_int a / of_int b)"
  have q: "0 \<le> ?q" "?q \<le> 1"
    using assms by (rule fl_quotient_unit)+
  then have y: "0 \<le> fmul ?q 100" "fmul ?q 100 \<le> 100"
    by (rule fmul_100_range)+
  show "0 \<le> py_round (fmul ?q 100)"
    using round_half_even_ge [of 0 "fmul ?q 100"] y by (simp add: py_round_def)
  show "py_round (fmul ?q 100) \<le> 100"
    using round_half_even_le [of "fmul ?q 100" 100] y by (simp add: py_round_def)
qed

lemma fl_err_unit:
  assumes "0 \<le> x" and "x \<le> c" and "c < 2 ^ 53"
  shows "\<bar>fl x - x\<bar> \<le> c / 2 ^ 53"
proof -
  from assms have "\<bar>x\<bar> < 2 ^ 53" by simp
  then have "\<bar>fl x - x\<bar> \<le> \<bar>x\<bar> / 2 ^ 53"
    by (rule fl_err)
  also have "\<dots> \<le> c / 2 ^ 53"
    using assms by (intro divide_right_mono) simp_all
  finally show ?thesis .
qed

lemma product_err:
  assumes "0 \<le> a" and "a \<le> b" and "0 < b"
  shows "\<bar>fmul (fl (of_int a / of_int b)) 100 - 100 * (of_int a / of_int b)\<bar> \<le> 200 / 2 ^ 53"
proof -
  define x :: rat where "x = of_int a / of_int b"
  define q where "q = fl x"
  have x: "0 \<le> x" "x \<le> 1"
    unfolding x_def using assms by (rule quotient_unit)+
  have q: "0 \<le> q" "q \<le> 1"
    unfolding q_def x_def using assms by (rule fl_quotient_unit)+
  have e1: "\<bar>q - x\<bar> \<le> 1 / 2 ^ 53"
    unfolding q_def using x by (intro fl_err_unit) simp_all
  have e2: "\<bar>fl (q * 100) - q * 100\<bar> \<le> 100 / 2 ^ 53"
    using q by (intro fl_err_unit) simp_all
  have "\<bar>fl (q * 100) - 100 * x\<bar> \<le> 200 / 2 ^ 53"
    using e1 e2 by linarith
  then show ?thesis
    by (simp add: fmul_def q_def x_def)
qed


lemma percentage_near:
  assumes "0 \<le> a" and "a \<le> b" and "0 < b" and "b \<le> 2 ^ 44"
  shows "\<bar>of_int (py_round (fmul (fl (of_int a / of_int b)) 100)) - 100 * (of_int a / of_int b)\<bar>
           \<le> (1 / 2 :: rat)"
proof -
  define z :: rat where "z = 100 * (of_int a / of_int b)"
  define y where "y = fmul (fl (of_int a / of_int b)) 100"
  define p where "p = py_round y"
  define B :: rat where "B = of_int b"
  have B: "0 < B" "B \<le> 2 ^ 44"
  proof -
    show "0 < B" using assms(3) by (simp add: B_def)
    from assms(4) have "(of_int b :: rat) \<le> of_int (2 ^ 44)" by (simp only: of_int_le_iff)
    then show "B \<le> 2 ^ 44" by (simp add: B_def)
  qed
  have "\<bar>y - z\<bar> \<le> 200 / 2 ^ 53"
    unfolding y_def z_def using assms(1-3) by (rule product_err)
  moreover have "\<bar>of_int p - y\<bar> \<le> 1 / 2"
    unfolding p_def py_round_def by (rule round_half_even_err)
  ultimately have d: "\<bar>of_int p - z\<bar> \<le> 1 / 2 + 200 / 2 ^ 53"
    by linarith
  define k where "k = 2 * p * b - 200 * a"
  have k: "of_int k = (of_int p - z) * (2 * B)"
    using assms(3) by (simp add: k_def z_def B_def field_simps)
  have "\<bar>of_int p - z\<bar> * (2 * B) \<le> (1 / 2 + 200 / 2 ^ 53) * (2 * B)"
    using d B(1) by (intro mult_right_mono) simp_all
  also have "\<dots> = B + 400 * B / 2 ^ 53"
    by (simp add: algebra_simps)
  also have "\<dots> < B + 1"
    using B(2) by simp
  finally have "\<bar>of_int k :: rat\<bar> < B + 1"
    using B(1) by (simp add: k abs_mult)
  then have "(of_int \<bar>k\<bar> :: rat) < of_int (b + 1)"
    by (simp add: B_def)
  then have "\<bar>k\<bar> < b + 1"
    by (simp only: of_int_less_iff)
  then have "\<bar>k\<bar> \<le> b" by simp
  then have "(of_int \<bar>k\<bar> :: rat) \<le> of_int b"
    by (simp only: of_int_le_iff)
  then have "\<bar>of_int p - z\<bar> * (2 * B) \<le> B"
    using B(1) by (simp add: k abs_mult B_def)
  then have "\<bar>of_int p - z\<bar> \<le> 1 / 2"
    using B(1) by (simp add: field_simps)
  then show ?thesis
    by (simp add: p_def y_def z_def)
qed


subsection \<open>\<open>round(a / b)\<close>\<close>

text \<open>Below \<open>2\<^sup>5\<^sup>2\<close> the rounding of the quotient to a double does not change the integer
  it rounds to.\<close>

lemma pos_int_ge_1:
  assumes "0 < (of_int m :: rat)"
  shows "1 \<le> (of_int m :: rat)"
proof -
  from assms have "0 < m" by simp
  then have "1 \<le> m" by simp
  then show ?thesis by simp
qed

lemma round_quotient_exact:
  assumes "0 \<le> a" and "a < 2 ^ 52" and "0 < b"
  shows "round_half_even (fl (of_int a / of_int b)) = round_half_even (of_int a / of_int b)"
proof -
  define x :: rat where "x = of_int a / of_int b"
  define B :: rat where "B = of_int b"
  have B: "1 \<le> B"
    using assms(3) pos_int_ge_1 [of b] by (simp add: B_def)
  have x0: "0 \<le> x"
    using assms by (simp add: x_def)
  have xB: "x * B = of_int a"
    using assms(3) by (simp add: x_def B_def)
  have "x * 1 \<le> x * B"
    using x0 B by (intro mult_left_mono)
  then have xa: "x \<le> of_int a"
    by (simp add: xB)
  from assms(2) have "(of_int a :: rat) < of_int (2 ^ 52)"
    by (simp only: of_int_less_iff)
  then have a52: "(of_int a :: rat) < 2 ^ 52" by simp
  with xa have x52: "x < 2 ^ 52" by simp
  show ?thesis
  proof (cases "x = 0")
    case True
    then show ?thesis by (simp flip: x_def)
  next
    case False
    with x0 have xpos: "0 < x" by simp
    from x0 x52 have "\<bar>x\<bar> < 2 ^ 53" by simp
    with False obtain k :: nat where k: "fl x = of_int (round_half_even (x * 2 ^ k)) / 2 ^ k"
      and lo: "2 ^ 52 \<le> \<bar>x\<bar> * 2 ^ k"
      by (rule fl_scaled)
    define N :: rat where "N = 2 ^ k"
    have Npos: "0 < N" by (simp add: N_def)
    from lo x0 have "x * B < x * N"
      using a52 by (simp add: xB N_def)
    with xpos have BN: "B < N"
      by (simp add: mult_less_cancel_left_pos)
    with B have "1 < N" by simp
    then have "k \<noteq> 0"
      by (cases k) (simp_all add: N_def)
    then obtain k' where k': "k = Suc k'"
      by (cases k) simp_all
    have "fl x - x = (of_int (round_half_even (x * N)) - x * N) / N"
      by (simp add: k N_def diff_divide_distrib)
    then have "\<bar>fl x - x\<bar> = \<bar>of_int (round_half_even (x * N)) - x * N\<bar> / N"
      using Npos by (simp add: abs_divide)
    also have "\<dots> \<le> (1 / 2) / N"
      using Npos by (intro divide_right_mono round_half_even_err) simp
    finally have err: "\<bar>fl x - x\<bar> \<le> 1 / (2 * N)"
      by simp
    have gap: "1 / (2 * N) < 1 / (2 * B)"
      using BN B by (simp add: frac_less2)
    define f where "f = \<lfloor>x\<rfloor>"
    have f: "of_int f \<le> x" "x < of_int f + 1"
      unfolding f_def by linarith+
    have f0: "0 \<le> f"
      using x0 by (simp add: f_def)
    from f(1) x52 have "(of_int f :: rat) < of_int (2 ^ 52)" by simp
    then have f52: "f < 2 ^ 52" by (simp only: of_int_less_iff)
    have lower: "of_int f \<le> fl x"
      using f(1) f0 x52 by (intro fl_ge_int) simp_all
    have upper: "fl x \<le> of_int (f + 1)"
      using f(2) x0 f52 by (intro fl_le_int) simp_all
    define h :: rat where "h = of_int f + 1 / 2"
    consider "x = h" | "x < h" | "h < x" by linarith
    then show ?thesis
    proof cases
      case 1
      have "x * N = of_int (f * 2 ^ k + 2 ^ k')"
        by (simp add: 1 h_def N_def k' algebra_simps)
      then have "round_half_even (x * N) = f * 2 ^ k + 2 ^ k'"
        by (simp only: round_half_even_of_int)
      then have "fl x = of_int (f * 2 ^ k + 2 ^ k') / 2 ^ k"
        by (simp add: k N_def)
      also have "\<dots> = x"
        by (simp add: 1 h_def k' field_simps)
      finally show ?thesis
        by (simp flip: x_def)
    next
      case 2
      define m where "m = (2 * f + 1) * b - 2 * a"
      have m: "of_int m = (h - x) * (2 * B)"
        using xB by (simp add: m_def h_def B_def algebra_simps)
      with 2 B have "0 < (of_int m :: rat)" by simp
      then have "1 \<le> (of_int m :: rat)" by (rule pos_int_ge_1)
      with m B have "1 / (2 * B) \<le> h - x"
        by (simp add: field_simps)
      with gap err have "fl x < h" by linarith
      with lower have "\<bar>of_int f - fl x\<bar> < 1 / 2"
        unfolding h_def by linarith
      then have "round_half_even (fl x) = f"
        by (rule round_half_even_nearest)
      moreover from 2 f(1) have "\<bar>of_int f - x\<bar> < 1 / 2"
        unfolding h_def by linarith
      then have "round_half_even x = f"
        by (rule round_half_even_nearest)
      ultimately show ?thesis
        by (simp flip: x_def)
    next
      case 3
      define m where "m = 2 * a - (2 * f + 1) * b"
      have m: "of_int m = (x - h) * (2 * B)"
        using xB by (simp add: m_def h_def B_def algebra_simps)
      with 3 B have "0 < (of_int m :: rat)" by simp
      then have "1 \<le> (of_int m :: rat)" by (rule pos_int_ge_1)
      with m B have "1 / (2 * B) \<le> x - h"
        by (simp add: field_simps)
      with gap err have "h < fl x" by linarith
      with upper have "\<bar>of_int (f + 1) - fl x\<bar> < 1 / 2"
        unfolding h_def by linarith
      then have "round_half_even (fl x) = f + 1"
        by (rule round_half_even_nearest)
      moreover from 3 f(2) have "\<bar>of_int (f + 1) - x\<bar> < 1 / 2"
        unfolding h_def by linarith
      then have "round_half_even x = f + 1"
        by (rule round_half_even_nearest)
      ultimately show ?thesis
        by (simp flip: x_def)
    qed
  qed
qed

end
